theory Spec2Isabelle
  imports Main
begin

section \<open>Data contracts (types.ts)\<close>

text \<open>
  A JavaScript string is modelled as a \<^typ>\<open>string\<close>, a list of 8-bit characters: the
  code units U+0000 to U+00FF. The string primitives below (\<open>trim\<close>, \<open>toLowerCase\<close>,
  \<open>startsWith\<close>, \<open>includes\<close>, \<open>split\<close>) follow ECMAScript on that range.
\<close>

datatype AgentStatus = IDLE | THINKING | GENERATING | RECORDING | LIVE | ERROR

datatype MessageRole = Role_user | Role_assistant | Role_system

record GroundingSource =
  title :: "string option"
  uri :: "string option"

datatype AttachmentType =
  T_image | T_video | T_audio | T_text | T_pdf | T_document
  | T_spreadsheet | T_presentation | T_code | T_note

record Attachment =
  a_type :: AttachmentType
  a_url :: string
  a_data :: "string option"
  a_mimeType :: string

record Message =
  m_id :: string
  m_role :: MessageRole
  m_content :: string
  m_timestamp :: nat
  m_attachments :: "Attachment list option"
  m_groundingSources :: "GroundingSource list option"
  m_isThinking :: "bool option"

text \<open>\<open>Partial<Message>\<close>: every field may be absent.\<close>

record PartialMessage =
  p_id :: "string option"
  p_role :: "MessageRole option"
  p_content :: "string option"
  p_timestamp :: "nat option"
  p_attachments :: "Attachment list option"
  p_groundingSources :: "GroundingSource list option"
  p_isThinking :: "bool option"

datatype Mode = Mode_chat | Mode_image | Mode_video | Mode_live

section \<open>String primitives\<close>

definition startsWith :: "string \<Rightarrow> string \<Rightarrow> bool" where
  "startsWith s p = (take (length p) s = p)"

fun str_includes :: "string \<Rightarrow> string \<Rightarrow> bool" where
  "str_includes [] p = (p = [])"
| "str_includes (c # cs) p = (startsWith (c # cs) p \<or> str_includes cs p)"

text \<open>
  \<open>toLowerCase\<close> on the code units below 256: the letters A to Z, and the Latin-1
  capitals U+00C0 to U+00DE except the multiplication sign U+00D7, move up by 32.
\<close>

definition lower_char :: "char \<Rightarrow> char" where
  "lower_char c =
     (let n = (of_char c :: nat)
      in if (65 \<le> n \<and> n \<le> 90) \<or> (192 \<le> n \<and> n \<le> 222 \<and> n \<noteq> 215)
         then char_of (n + 32) else c)"

definition toLowerCase :: "string \<Rightarrow> string" where
  "toLowerCase s = map lower_char s"

text \<open>
  White space and line terminators that \<open>trim\<close> strips, below 256: TAB, LF, VT, FF, CR,
  SPACE and NO-BREAK SPACE.
\<close>

definition is_white_space :: "char \<Rightarrow> bool" where
  "is_white_space c = ((of_char c :: nat) \<in> {9, 10, 11, 12, 13, 32, 160})"

definition trim :: "string \<Rightarrow> string" where
  "trim s = rev (dropWhile is_white_space (rev (dropWhile is_white_space s)))"

text \<open>\<open>s.split(c)\<close> for a one-character separator: never the empty array.\<close>

fun split :: "string \<Rightarrow> char \<Rightarrow> string list" where
  "split [] c = [[]]"
| "split (x # xs) c =
     (if x = c then [] # split xs c
      else (case split xs c of
              [] \<Rightarrow> [[x]]
            | p # ps \<Rightarrow> (x # p) # ps))"

text \<open>\<open>toString\<close> of a number: the decimal digits, for the non-negative integers that
  \<open>Date.now()\<close> yields (all digits are printed below \<open>10^21\<close>).\<close>

definition digit :: "nat \<Rightarrow> char" where
  "digit d = char_of (48 + d)"

function toString :: "nat \<Rightarrow> string" where
  "toString n = (if n < 10 then [digit n] else toString (n div 10) @ [digit (n mod 10)])"
  by pat_completeness auto
termination
  by (relation "measure (\<lambda>n. n)") auto

declare toString.simps [simp del]

section \<open>Attachment ingestion (handleFileUpload)\<close>

text \<open>
  The regular expression \<open>/:(.*?);/\<close> applied by \<open>header.match\<close>: the leftmost colon
  from which a semicolon is reached without crossing a line terminator; the group is the
  shortest such stretch. \<open>until_semicolon\<close> is the lazy group \<open>(.*?);\<close> tried at one
  position, \<open>match_colon_semicolon\<close> the search over start positions.
\<close>

definition is_line_terminator :: "char \<Rightarrow> bool" where
  "is_line_terminator c = ((of_char c :: nat) \<in> {10, 13})"

fun until_semicolon :: "string \<Rightarrow> string option" where
  "until_semicolon [] = None"
| "until_semicolon (c # cs) =
     (if c = CHR '';'' then Some []
      else if is_line_terminator c then None
      else map_option (\<lambda>g. c # g) (until_semicolon cs))"

fun match_colon_semicolon :: "string \<Rightarrow> string option" where
  "match_colon_semicolon [] = None"
| "match_colon_semicolon (c # cs) =
     (if c = CHR '':'' then
        (case until_semicolon cs of
           Some g \<Rightarrow> Some g
         | None \<Rightarrow> match_colon_semicolon cs)
      else match_colon_semicolon cs)"

text \<open>\<open>header.match(/:(.*?);/)?.[1] || "image/png"\<close>: no match, or an empty group, falls
  back to the default.\<close>

definition header_mimeType :: "string \<Rightarrow> string" where
  "header_mimeType header =
     (case match_colon_semicolon header of
        None \<Rightarrow> ''image/png''
      | Some g \<Rightarrow> (if g = [] then ''image/png'' else g))"

text \<open>The \<open>let type = "image"; if ... else if ...\<close> chain of the \<open>onload\<close> callback.\<close>

definition attachment_type :: "string \<Rightarrow> AttachmentType" where
  "attachment_type mimeType =
     (if startsWith mimeType ''video'' then T_video
      else if startsWith mimeType ''audio'' then T_audio
      else if mimeType = ''application/pdf'' then T_pdf
      else if str_includes mimeType ''text'' \<or> str_includes mimeType ''json''
              \<or> str_includes mimeType ''javascript'' \<or> str_includes mimeType ''typescript''
        then T_code
      else if str_includes mimeType ''spreadsheet'' \<or> str_includes mimeType ''excel''
              \<or> str_includes mimeType ''csv''
        then T_spreadsheet
      else if str_includes mimeType ''presentation'' \<or> str_includes mimeType ''powerpoint''
        then T_presentation
      else if \<not> startsWith mimeType ''image'' then T_document
      else T_image)"

text \<open>
  The attachment built by \<open>reader.onload\<close> from the data URL \<open>base64\<close> read from the file;
  \<open>objectUrl\<close> stands for the handle \<open>URL.createObjectURL(file)\<close> returns. The
  destructuring \<open>[header, data] = base64.split(",")\<close> leaves \<open>data\<close> undefined when there
  is no comma.
\<close>

definition data_url_header :: "string \<Rightarrow> string" where
  "data_url_header base64 = (case split base64 CHR '','' of [] \<Rightarrow> [] | header # _ \<Rightarrow> header)"

definition data_url_data :: "string \<Rightarrow> string option" where
  "data_url_data base64 =
     (case split base64 CHR '','' of _ # data # _ \<Rightarrow> Some data | _ \<Rightarrow> None)"

definition onload_attachment :: "string \<Rightarrow> string \<Rightarrow> Attachment" where
  "onload_attachment base64 objectUrl =
     (let header = data_url_header base64;
          data = data_url_data base64;
          mimeType = header_mimeType header
      in \<lparr> a_type = attachment_type mimeType, a_url = objectUrl,
           a_data = data, a_mimeType = mimeType \<rparr>)"

section \<open>The generation gateway and the clock\<close>

text \<open>
  \<open>geminiService\<close> is imported by App.tsx from a module outside the files at hand, so its
  three operations are parameters of the model: each maps its arguments to the outcome of
  the awaited promise, \<open>Inl\<close> the error it rejects with and \<open>Inr\<close> the value it resolves
  to. \<open>Date_now w k\<close> is what the \<open>k\<close>-th evaluation of \<open>Date.now()\<close> during one run of
  a handler returns (counting from 0).
\<close>

datatype JsError = Error (message: string)

record ChatOptions =
  useSearch :: bool
  useMaps :: bool
  o_thinkingBudget :: int

record ChatResult =
  r_text :: string
  r_sources :: "GroundingSource list"

record MediaResult =
  r_url :: string

record World =
  chat :: "string \<Rightarrow> Attachment list \<Rightarrow> ChatOptions \<Rightarrow> JsError + ChatResult"
  generateImage :: "string \<Rightarrow> JsError + MediaResult"
  generateVideo :: "string \<Rightarrow> JsError + MediaResult"
  Date_now :: "nat \<Rightarrow> nat"

section \<open>Component state and its updates (App.tsx)\<close>

record App =
  messages :: "Message list"
  input :: string
  status :: AgentStatus
  isSidebarOpen :: bool
  attachments :: "Attachment list"
  activeMode :: Mode
  showVoiceOverlay :: bool
  thinkingBudget :: int

definition initial_App :: App where
  "initial_App =
     \<lparr> messages = [], input = [], status = IDLE, isSidebarOpen = True, attachments = [],
       activeMode = Mode_chat, showVoiceOverlay = False, thinkingBudget = 500 \<rparr>"

text \<open>
  The state setters a handler calls. \<open>AppendMessage m\<close> is
  \<open>setMessages((prev) => [...prev, m])\<close> and \<open>AppendAttachment a\<close> is
  \<open>setAttachments((prev) => [...prev, a])\<close>; the others set a value.
\<close>

datatype Update =
  AppendMessage Message
  | SetInput string
  | SetStatus AgentStatus
  | SetAttachments "Attachment list"
  | AppendAttachment Attachment

datatype Request =
  GenerateImage string
  | GenerateVideo string
  | Chat string "Attachment list" ChatOptions

text \<open>
  What a handler does, in program order: state updates, calls of the gateway, and the
  \<open>console.error\<close> line of the catch block.
\<close>

datatype Event = Upd Update | Call Request | Console_error JsError

fun apply_update :: "Update \<Rightarrow> App \<Rightarrow> App" where
  "apply_update (AppendMessage m) s = s\<lparr>messages := messages s @ [m]\<rparr>"
| "apply_update (SetInput t) s = s\<lparr>input := t\<rparr>"
| "apply_update (SetStatus st) s = s\<lparr>status := st\<rparr>"
| "apply_update (SetAttachments as) s = s\<lparr>attachments := as\<rparr>"
| "apply_update (AppendAttachment a) s = s\<lparr>attachments := attachments s @ [a]\<rparr>"

fun apply_event :: "Event \<Rightarrow> App \<Rightarrow> App" where
  "apply_event (Upd u) s = apply_update u s"
| "apply_event (Call rq) s = s"
| "apply_event (Console_error e) s = s"

definition run :: "Event list \<Rightarrow> App \<Rightarrow> App" where
  "run evs s = fold apply_event evs s"

text \<open>
  A (possibly asynchronous) piece of handler code: the events it performs, and how it
  completes, \<open>Inl e\<close> when it throws \<open>e\<close> (an async function: when its promise rejects
  with \<open>e\<close>), \<open>Inr v\<close> when it returns \<open>v\<close>.
\<close>

type_synonym 'a task = "Event list \<times> (JsError + 'a)"

definition ret :: "'a \<Rightarrow> 'a task" where
  "ret v = ([], Inr v)"

definition emit :: "Update \<Rightarrow> unit task" where
  "emit u = ([Upd u], Inr ())"

definition console_error :: "JsError \<Rightarrow> unit task" where
  "console_error e = ([Console_error e], Inr ())"

text \<open>\<open>await\<close> of a gateway call whose promise settles with the given outcome.\<close>

definition await :: "Request \<Rightarrow> JsError + 'a \<Rightarrow> 'a task" where
  "await rq outcome = ([Call rq], outcome)"

text \<open>Sequencing: a statement that throws skips the statements after it.\<close>

definition and_then :: "'a task \<Rightarrow> ('a \<Rightarrow> 'b task) \<Rightarrow> 'b task" where
  "and_then t f =
     (case snd t of
        Inl e \<Rightarrow> (fst t, Inl e)
      | Inr v \<Rightarrow> (fst t @ fst (f v), snd (f v)))"

definition discard :: "'a task \<Rightarrow> unit task" where
  "discard t = and_then t (\<lambda>_. ret ())"

fun steps :: "unit task list \<Rightarrow> unit task" where
  "steps [] = ret ()"
| "steps (t # ts) = and_then t (\<lambda>_. steps ts)"

text \<open>
  \<open>try { body } catch (error) { handler } finally { fin }\<close>: the handler runs when the
  body throws; \<open>fin\<close> runs in every case, and when it completes normally the completion
  of the try/catch part stands.
\<close>

definition try_catch_finally ::
  "unit task \<Rightarrow> (JsError \<Rightarrow> unit task) \<Rightarrow> unit task \<Rightarrow> unit task" where
  "try_catch_finally body handler fin =
     (let caught =
            (case snd body of
               Inl e \<Rightarrow> (fst body @ fst (handler e), snd (handler e))
             | Inr v \<Rightarrow> body)
      in (fst caught @ fst fin,
          (case snd fin of Inl e \<Rightarrow> Inl e | Inr _ \<Rightarrow> snd caught)))"

section \<open>The controller (App.tsx)\<close>

definition no_extra :: PartialMessage where
  "no_extra =
     \<lparr> p_id = None, p_role = None, p_content = None, p_timestamp = None,
       p_attachments = None, p_groundingSources = None, p_isThinking = None \<rparr>"

text \<open>The object spread \<open>{ ...base, ...extra }\<close>: a field present in \<open>extra\<close> wins.\<close>

definition spread :: "Message \<Rightarrow> PartialMessage \<Rightarrow> Message" where
  "spread base extra =
     \<lparr> m_id = (case p_id extra of Some v \<Rightarrow> v | None \<Rightarrow> m_id base),
       m_role = (case p_role extra of Some v \<Rightarrow> v | None \<Rightarrow> m_role base),
       m_content = (case p_content extra of Some v \<Rightarrow> v | None \<Rightarrow> m_content base),
       m_timestamp = (case p_timestamp extra of Some v \<Rightarrow> v | None \<Rightarrow> m_timestamp base),
       m_attachments =
         (case p_attachments extra of Some v \<Rightarrow> Some v | None \<Rightarrow> m_attachments base),
       m_groundingSources =
         (case p_groundingSources extra of Some v \<Rightarrow> Some v
          | None \<Rightarrow> m_groundingSources base),
       m_isThinking =
         (case p_isThinking extra of Some v \<Rightarrow> Some v | None \<Rightarrow> m_isThinking base) \<rparr>"

text \<open>
  \<open>addMessage\<close>, reading the clock for the \<open>k\<close>-th time for the id and for the
  \<open>k + 1\<close>-th time for the timestamp.
\<close>

definition new_message ::
  "World \<Rightarrow> nat \<Rightarrow> MessageRole \<Rightarrow> string \<Rightarrow> PartialMessage \<Rightarrow> Message" where
  "new_message w k role content extra =
     spread \<lparr> m_id = toString (Date_now w k), m_role = role, m_content = content,
              m_timestamp = Date_now w (k + 1), m_attachments = None,
              m_groundingSources = None, m_isThinking = None \<rparr> extra"

definition addMessage ::
  "World \<Rightarrow> nat \<Rightarrow> MessageRole \<Rightarrow> string \<Rightarrow> PartialMessage \<Rightarrow> Message task" where
  "addMessage w k role content extra =
     (let newMessage = new_message w k role content extra
      in ([Upd (AppendMessage newMessage)], Inr newMessage))"

definition chat_options :: "string \<Rightarrow> int \<Rightarrow> ChatOptions" where
  "chat_options currentInput budget =
     \<lparr> useSearch = (str_includes (toLowerCase currentInput) ''search''
                    \<or> str_includes (toLowerCase currentInput) ''latest''),
       useMaps = (str_includes (toLowerCase currentInput) ''location''
                  \<or> str_includes (toLowerCase currentInput) ''near me''),
       o_thinkingBudget = budget \<rparr>"

text \<open>The two message templates that embed a value: the caption of a generated image,
  \<open>"Here's the image you requested based on: " + currentInput\<close>, and the text of the
  catch block, \<open>`Encountered an error: ${error.message}`\<close>.\<close>

definition image_caption :: "string \<Rightarrow> string" where
  "image_caption currentInput = ''Here's the image you requested based on: '' @ currentInput"

definition error_text :: "JsError \<Rightarrow> string" where
  "error_text error = ''Encountered an error: '' @ message error"

definition handleSend :: "World \<Rightarrow> App \<Rightarrow> unit task" where
  "handleSend w s =
     (if trim (input s) = [] \<and> length (attachments s) = 0 then ret ()
      else
        let currentInput = input s;
            currentAttachments = attachments s
        in steps [
             emit (SetInput []),
             emit (SetAttachments []),
             emit (SetStatus THINKING),
             discard (addMessage w 0 Role_user currentInput
                        (no_extra\<lparr>p_attachments := Some currentAttachments\<rparr>)),
             try_catch_finally
               (if activeMode s = Mode_image then
                  steps [
                    emit (SetStatus GENERATING),
                    and_then (await (GenerateImage currentInput) (generateImage w currentInput))
                      (\<lambda>result. discard (addMessage w 2 Role_assistant
                         (image_caption currentInput)
                         (no_extra\<lparr>p_attachments :=
                            Some [\<lparr> a_type = T_image, a_url = r_url result, a_data = None,
                                    a_mimeType = ''image/png'' \<rparr>]\<rparr>)))]
                else if activeMode s = Mode_video then
                  steps [
                    emit (SetStatus GENERATING),
                    and_then (await (GenerateVideo currentInput) (generateVideo w currentInput))
                      (\<lambda>result. discard (addMessage w 2 Role_assistant
                         ''I've generated this video for you.''
                         (no_extra\<lparr>p_attachments :=
                            Some [\<lparr> a_type = T_video, a_url = r_url result, a_data = None,
                                    a_mimeType = ''video/mp4'' \<rparr>]\<rparr>)))]
                else
                  and_then
                    (await (Chat currentInput currentAttachments
                              (chat_options currentInput (thinkingBudget s)))
                       (chat w currentInput currentAttachments
                              (chat_options currentInput (thinkingBudget s))))
                    (\<lambda>result. discard (addMessage w 2 Role_assistant (r_text result)
                       (no_extra\<lparr>p_groundingSources := Some (r_sources result)\<rparr>))))
               (\<lambda>error. steps [
                  console_error error,
                  discard (addMessage w 2 Role_assistant (error_text error) no_extra),
                  emit (SetStatus ERROR)])
               (emit (SetStatus IDLE))])"

text \<open>
  The two ways the user starts a submission. The send button carries
  \<open>disabled={status !== AgentStatus.IDLE || (!input.trim() && attachments.length === 0)}\<close>
  and a disabled button delivers no click; the text area calls \<open>handleSend\<close> on an
  unshifted Enter key.
\<close>

definition send_disabled :: "App \<Rightarrow> bool" where
  "send_disabled s =
     (status s \<noteq> IDLE \<or> (trim (input s) = [] \<and> length (attachments s) = 0))"

definition button_onClick :: "World \<Rightarrow> App \<Rightarrow> unit task" where
  "button_onClick w s = (if send_disabled s then ret () else handleSend w s)"

definition textarea_onKeyDown :: "string \<Rightarrow> bool \<Rightarrow> World \<Rightarrow> App \<Rightarrow> unit task" where
  "textarea_onKeyDown key shiftKey w s =
     (if key = ''Enter'' \<and> \<not> shiftKey then handleSend w s else ret ())"

text \<open>
  \<open>handleFileUpload\<close>: no file selected is a no-op; otherwise the \<open>onload\<close> callback
  appends the attachment. A file is given by the data URL the reader produces and the
  object URL created for it.
\<close>

definition handleFileUpload :: "(string \<times> string) option \<Rightarrow> unit task" where
  "handleFileUpload file =
     (case file of
        None \<Rightarrow> ret ()
      | Some (base64, objectUrl) \<Rightarrow> emit (AppendAttachment (onload_attachment base64 objectUrl)))"

section \<open>Notions used in the statements\<close>

text \<open>The gateway calls and the status writes of a trace, in order.\<close>

fun calls :: "Event list \<Rightarrow> Request list" where
  "calls [] = []"
| "calls (Call rq # evs) = rq # calls evs"
| "calls (Upd u # evs) = calls evs"
| "calls (Console_error e # evs) = calls evs"

fun status_writes :: "Event list \<Rightarrow> AgentStatus list" where
  "status_writes [] = []"
| "status_writes (Upd (SetStatus st) # evs) = st # status_writes evs"
| "status_writes (ev # evs) = status_writes evs"

text \<open>Every write of \<open>ERROR\<close> is directly followed by a write of \<open>IDLE\<close>.\<close>

fun error_then_idle :: "AgentStatus list \<Rightarrow> bool" where
  "error_then_idle [] = True"
| "error_then_idle [st] = (st \<noteq> ERROR)"
| "error_then_idle (st # st' # sts) =
     ((st \<noteq> ERROR \<or> st' = IDLE) \<and> error_then_idle (st' # sts))"

text \<open>The composition buffer is empty, in the words of the specification: the text is
  empty or white space only, and no attachment is pending. \<open>handleSend\<close> passes its guard
  when this does not hold.\<close>

definition whitespace_only :: "string \<Rightarrow> bool" where
  "whitespace_only t = list_all is_white_space t"

definition buffer_empty :: "App \<Rightarrow> bool" where
  "buffer_empty s = (whitespace_only (input s) \<and> attachments s = [])"

text \<open>
  Letter case, stated without reference to \<open>toLowerCase\<close>: the capital letters among the
  code units below 256 (A to Z and the Latin-1 capitals) and, position by position, their
  small counterparts. Two characters are the same letter when they are equal or one is
  the capital or the small form of the other.
\<close>

definition upper_case_letters :: string where
  "upper_case_letters =
     ''ABCDEFGHIJKLMNOPQRSTUVWXYZ'' @
     [CHR 0xC0, CHR 0xC1, CHR 0xC2, CHR 0xC3, CHR 0xC4, CHR 0xC5, CHR 0xC6, CHR 0xC7,
      CHR 0xC8, CHR 0xC9, CHR 0xCA, CHR 0xCB, CHR 0xCC, CHR 0xCD, CHR 0xCE, CHR 0xCF,
      CHR 0xD0, CHR 0xD1, CHR 0xD2, CHR 0xD3, CHR 0xD4, CHR 0xD5, CHR 0xD6,
      CHR 0xD8, CHR 0xD9, CHR 0xDA, CHR 0xDB, CHR 0xDC, CHR 0xDD, CHR 0xDE]"

definition lower_case_letters :: string where
  "lower_case_letters =
     ''abcdefghijklmnopqrstuvwxyz'' @
     [CHR 0xE0, CHR 0xE1, CHR 0xE2, CHR 0xE3, CHR 0xE4, CHR 0xE5, CHR 0xE6, CHR 0xE7,
      CHR 0xE8, CHR 0xE9, CHR 0xEA, CHR 0xEB, CHR 0xEC, CHR 0xED, CHR 0xEE, CHR 0xEF,
      CHR 0xF0, CHR 0xF1, CHR 0xF2, CHR 0xF3, CHR 0xF4, CHR 0xF5, CHR 0xF6,
      CHR 0xF8, CHR 0xF9, CHR 0xFA, CHR 0xFB, CHR 0xFC, CHR 0xFD, CHR 0xFE]"

definition same_letter :: "char \<Rightarrow> char \<Rightarrow> bool" where
  "same_letter a b =
     (a = b \<or> (a, b) \<in> set (zip upper_case_letters lower_case_letters)
            \<or> (b, a) \<in> set (zip upper_case_letters lower_case_letters))"

text \<open>
  \<open>t\<close> contains \<open>w\<close> case-insensitively: at some offset of \<open>t\<close> stand \<open>length w\<close>
  characters that are, one by one, the same letters as those of \<open>w\<close>.
\<close>

definition contains_ci :: "string \<Rightarrow> string \<Rightarrow> bool" where
  "contains_ci t w =
     list_ex (\<lambda>i. list_all2 same_letter (take (length w) (drop i t)) w)
       [0 ..< Suc (length t)]"

text \<open>The error, if any, with which the gateway operation that the active mode selects
  fails for the buffer of \<open>s\<close>.\<close>

definition gateway_failure :: "World \<Rightarrow> App \<Rightarrow> JsError option" where
  "gateway_failure w s =
     (case activeMode s of
        Mode_image \<Rightarrow>
          (case generateImage w (input s) of Inl e \<Rightarrow> Some e | Inr _ \<Rightarrow> None)
      | Mode_video \<Rightarrow>
          (case generateVideo w (input s) of Inl e \<Rightarrow> Some e | Inr _ \<Rightarrow> None)
      | _ \<Rightarrow>
          (case chat w (input s) (attachments s)
                  (chat_options (input s) (thinkingBudget s))
           of Inl e \<Rightarrow> Some e | Inr _ \<Rightarrow> None))"

text \<open>
  The classification policy as an ordered rule list, first match wins. The three family
  tests are parameters: \<open>classify_claimed\<close> reads \<open>video/*\<close>, \<open>audio/*\<close> and
  \<open>image/*\<close> as a MIME type whose top-level type is \<open>video\<close>, \<open>audio\<close> or \<open>image\<close>
  (the prefix up to and including the slash); \<open>classify_by_prefix\<close> tests the bare
  prefixes \<open>video\<close>, \<open>audio\<close> and \<open>image\<close>.
\<close>

fun first_match ::
  "((string \<Rightarrow> bool) \<times> AttachmentType) list \<Rightarrow> AttachmentType \<Rightarrow> string \<Rightarrow> AttachmentType"
where
  "first_match [] dflt m = dflt"
| "first_match ((applies, t) # rules) dflt m =
     (if applies m then t else first_match rules dflt m)"

definition contains_any :: "string list \<Rightarrow> string \<Rightarrow> bool" where
  "contains_any ws m = list_ex (\<lambda>w. str_includes m w) ws"

definition ordered_rules ::
  "(string \<Rightarrow> bool) \<Rightarrow> (string \<Rightarrow> bool) \<Rightarrow> (string \<Rightarrow> bool)
     \<Rightarrow> ((string \<Rightarrow> bool) \<times> AttachmentType) list" where
  "ordered_rules is_video is_audio is_image =
     [ (is_video, T_video),
       (is_audio, T_audio),
       (\<lambda>m. m = ''application/pdf'', T_pdf),
       (contains_any [''text'', ''json'', ''javascript'', ''typescript''], T_code),
       (contains_any [''spreadsheet'', ''excel'', ''csv''], T_spreadsheet),
       (contains_any [''presentation'', ''powerpoint''], T_presentation),
       (\<lambda>m. \<not> is_image m, T_document) ]"

definition classify_claimed :: "string \<Rightarrow> AttachmentType" where
  "classify_claimed m =
     first_match
       (ordered_rules (\<lambda>m. startsWith m ''video/'') (\<lambda>m. startsWith m ''audio/'')
          (\<lambda>m. startsWith m ''image/''))
       T_image m"

definition classify_by_prefix :: "string \<Rightarrow> AttachmentType" where
  "classify_by_prefix m =
     first_match
       (ordered_rules (\<lambda>m. startsWith m ''video'') (\<lambda>m. startsWith m ''audio'')
          (\<lambda>m. startsWith m ''image''))
       T_image m"

text \<open>Two concrete worlds for the examples: a gateway that always rejects and a clock
  that stands still, and a gateway that always resolves and a clock that advances.\<close>

definition offline_world :: World where
  "offline_world =
     \<lparr> chat = (\<lambda>prompt atts opts. Inl (Error ''network timeout'')),
       generateImage = (\<lambda>prompt. Inl (Error ''network timeout'')),
       generateVideo = (\<lambda>prompt. Inl (Error ''network timeout'')),
       Date_now = (\<lambda>k. 1000) \<rparr>"

definition online_world :: World where
  "online_world =
     \<lparr> chat = (\<lambda>prompt atts opts. Inr \<lparr> r_text = ''ok'', r_sources = [] \<rparr>),
       generateImage = (\<lambda>prompt. Inr \<lparr> r_url = ''blob:image'' \<rparr>),
       generateVideo = (\<lambda>prompt. Inr \<lparr> r_url = ''blob:video'' \<rparr>),
       Date_now = (\<lambda>k. 1000 + k) \<rparr>"

text \<open>The messages and the pieces of trace that the runs of \<open>handleSend\<close> are made of.\<close>

abbreviation user_message :: "World \<Rightarrow> App \<Rightarrow> Message" where
  "user_message w s \<equiv>
     new_message w 0 Role_user (input s) (no_extra\<lparr>p_attachments := Some (attachments s)\<rparr>)"

abbreviation error_message :: "World \<Rightarrow> JsError \<Rightarrow> Message" where
  "error_message w e \<equiv> new_message w 2 Role_assistant (error_text e) no_extra"

abbreviation image_message :: "World \<Rightarrow> App \<Rightarrow> MediaResult \<Rightarrow> Message" where
  "image_message w s r \<equiv>
     new_message w 2 Role_assistant (image_caption (input s))
       (no_extra\<lparr>p_attachments :=
          Some [\<lparr> a_type = T_image, a_url = r_url r, a_data = None,
                  a_mimeType = ''image/png'' \<rparr>]\<rparr>)"

abbreviation video_message :: "World \<Rightarrow> MediaResult \<Rightarrow> Message" where
  "video_message w r \<equiv>
     new_message w 2 Role_assistant ''I've generated this video for you.''
       (no_extra\<lparr>p_attachments :=
          Some [\<lparr> a_type = T_video, a_url = r_url r, a_data = None,
                  a_mimeType = ''video/mp4'' \<rparr>]\<rparr>)"

abbreviation chat_message :: "World \<Rightarrow> ChatResult \<Rightarrow> Message" where
  "chat_message w r \<equiv>
     new_message w 2 Role_assistant (r_text r)
       (no_extra\<lparr>p_groundingSources := Some (r_sources r)\<rparr>)"

abbreviation sync_part :: "World \<Rightarrow> App \<Rightarrow> Event list" where
  "sync_part w s \<equiv>
     [Upd (SetInput []), Upd (SetAttachments []), Upd (SetStatus THINKING),
      Upd (AppendMessage (user_message w s))]"

abbreviation caught :: "World \<Rightarrow> JsError \<Rightarrow> Event list" where
  "caught w e \<equiv>
     [Console_error e, Upd (AppendMessage (error_message w e)),
      Upd (SetStatus ERROR), Upd (SetStatus IDLE)]"

text \<open>Example states: text typed into the fresh component, with a mode chosen, and
  while a submission is in flight.\<close>

definition news_state :: App where
  "news_state = initial_App\<lparr>input := ''latest news on AI''\<rparr>"

definition sunset_state :: "Mode \<Rightarrow> App" where
  "sunset_state mode = initial_App\<lparr>input := ''generate a sunset'', activeMode := mode\<rparr>"

definition capitals_state :: App where
  "capitals_state = initial_App\<lparr>input := ''LATEST News Near Me''\<rparr>"

definition busy_state :: App where
  "busy_state = initial_App\<lparr>input := ''hi'', status := THINKING\<rparr>"

text \<open>Reading a decimal string back, to tell two renderings of the clock apart.\<close>

definition parse_decimal :: "string \<Rightarrow> nat" where
  "parse_decimal ds = foldl (\<lambda>a c. 10 * a + ((of_char c :: nat) - 48)) 0 ds"

section \<open>String lemmas\<close>

lemma dropWhile_all: "(\<forall>c\<in>set (dropWhile P s). P c) \<longleftrightarrow> (\<forall>c\<in>set s. P c)"
  by (induction s) auto

lemma trim_empty_iff: "trim s = [] \<longleftrightarrow> whitespace_only s"
  by (simp add: trim_def whitespace_only_def list_all_iff dropWhile_eq_Nil_conv dropWhile_all)

lemma guard_iff: "(trim (input s) = [] \<and> length (attachments s) = 0) \<longleftrightarrow> buffer_empty s"
  by (simp add: trim_empty_iff buffer_empty_def)

lemma str_includes_iff:
  "str_includes s p \<longleftrightarrow> (\<exists>i\<le>length s. take (length p) (drop i s) = p)"
proof (induction s)
  case Nil
  show ?case by auto
next
  case (Cons c cs)
  have "(\<exists>i\<le>length (c # cs). take (length p) (drop i (c # cs)) = p)
      \<longleftrightarrow> take (length p) (c # cs) = p \<or> (\<exists>j\<le>length cs. take (length p) (drop j cs) = p)"
    (is "?L \<longleftrightarrow> ?R")
  proof
    assume ?L
    then obtain i where i: "i \<le> length (c # cs)" "take (length p) (drop i (c # cs)) = p"
      by blast
    show ?R
    proof (cases i)
      case 0
      with i show ?thesis by simp
    next
      case (Suc j)
      with i have "j \<le> length cs" "take (length p) (drop j cs) = p" by simp_all
      then show ?thesis by blast
    qed
  next
    assume ?R
    then show ?L
    proof
      assume "take (length p) (c # cs) = p"
      then have "take (length p) (drop 0 (c # cs)) = p" by simp
      then show ?L by blast
    next
      assume "\<exists>j\<le>length cs. take (length p) (drop j cs) = p"
      then obtain j where "j \<le> length cs" "take (length p) (drop j cs) = p" by blast
      then have "Suc j \<le> length (c # cs)" "take (length p) (drop (Suc j) (c # cs)) = p"
        by simp_all
      then show ?L by blast
    qed
  qed
  with Cons.IH show ?case by (simp add: startsWith_def)
qed

lemma contains_ci_iff:
  "contains_ci t w \<longleftrightarrow>
     (\<exists>i\<le>length t. list_all2 same_letter (take (length w) (drop i t)) w)"
  unfolding contains_ci_def list_ex_iff set_upt
  by (auto simp add: less_Suc_eq_le)

lemma lower_char_cases:
  "lower_char c =
     (if (65 \<le> (of_char c :: nat) \<and> (of_char c :: nat) \<le> 90)
         \<or> (192 \<le> (of_char c :: nat) \<and> (of_char c :: nat) \<le> 222 \<and> (of_char c :: nat) \<noteq> 215)
      then char_of ((of_char c :: nat) + 32) else c)"
  by (simp add: lower_char_def Let_def)

lemma lower_char_eq_letter:
  assumes "97 \<le> (of_char k :: nat)" "(of_char k :: nat) \<le> 122"
    "(of_char K :: nat) + 32 = of_char k"
  shows "lower_char c = k \<longleftrightarrow> c = k \<or> c = K"
proof -
  define n where "n = (of_char c :: nat)"
  define m where "m = (of_char k :: nat)"
  have ck: "c = k \<longleftrightarrow> n = m" by (simp add: n_def m_def)
  have cK: "c = K \<longleftrightarrow> n + 32 = m"
  proof -
    have "c = K \<longleftrightarrow> (of_char c :: nat) = of_char K" by (simp only: of_char_eq_iff)
    also have "\<dots> \<longleftrightarrow> (of_char c :: nat) + 32 = of_char K + 32" by arith
    finally show ?thesis unfolding assms(3) n_def m_def .
  qed
  have m: "97 \<le> m" "m \<le> 122" using assms by (simp_all add: m_def)
  show ?thesis
  proof (cases "(65 \<le> n \<and> n \<le> 90) \<or> (192 \<le> n \<and> n \<le> 222 \<and> n \<noteq> 215)")
    case True
    then have l: "lower_char c = char_of (n + 32)"
      unfolding lower_char_cases n_def [symmetric] by (rule if_P)
    from True have "(n + 32) mod 256 = n + 32" by auto
    then have "char_of (n + 32) = k \<longleftrightarrow> n + 32 = m"
      by (simp add: char_of_eq_iff take_bit_eq_mod m_def)
    moreover from True m have "n \<noteq> m" by arith
    ultimately show ?thesis unfolding l ck cK by simp
  next
    case False
    then have l: "lower_char c = c"
      unfolding lower_char_cases n_def [symmetric] by (rule if_not_P)
    from False m have "n + 32 \<noteq> m" by arith
    then show ?thesis unfolding l ck cK by simp
  qed
qed

lemma lower_char_eq_space: "lower_char c = CHR '' '' \<longleftrightarrow> c = CHR '' ''"
proof -
  define n where "n = (of_char c :: nat)"
  have "c = CHR '' '' \<longleftrightarrow> (of_char c :: nat) = of_char CHR '' ''" by (simp only: of_char_eq_iff)
  then have cs: "c = CHR '' '' \<longleftrightarrow> n = 32" by (simp add: n_def)
  show ?thesis
  proof (cases "(65 \<le> n \<and> n \<le> 90) \<or> (192 \<le> n \<and> n \<le> 222 \<and> n \<noteq> 215)")
    case True
    then have l: "lower_char c = char_of (n + 32)"
      unfolding lower_char_cases n_def [symmetric] by (rule if_P)
    from True have "(n + 32) mod 256 = n + 32" by auto
    then have "char_of (n + 32) = CHR '' '' \<longleftrightarrow> n + 32 = 32"
      by (simp add: char_of_eq_iff take_bit_eq_mod)
    moreover from True have "n \<noteq> 32" "n + 32 \<noteq> 32" by arith+
    ultimately show ?thesis unfolding l cs by simp
  next
    case False
    then have l: "lower_char c = c"
      unfolding lower_char_cases n_def [symmetric] by (rule if_not_P)
    show ?thesis unfolding l ..
  qed
qed

lemma lower_char_keyword_letters:
  "lower_char c = CHR ''s'' \<longleftrightarrow> c = CHR ''s'' \<or> c = CHR ''S''"
  "lower_char c = CHR ''e'' \<longleftrightarrow> c = CHR ''e'' \<or> c = CHR ''E''"
  "lower_char c = CHR ''a'' \<longleftrightarrow> c = CHR ''a'' \<or> c = CHR ''A''"
  "lower_char c = CHR ''r'' \<longleftrightarrow> c = CHR ''r'' \<or> c = CHR ''R''"
  "lower_char c = CHR ''c'' \<longleftrightarrow> c = CHR ''c'' \<or> c = CHR ''C''"
  "lower_char c = CHR ''h'' \<longleftrightarrow> c = CHR ''h'' \<or> c = CHR ''H''"
  "lower_char c = CHR ''l'' \<longleftrightarrow> c = CHR ''l'' \<or> c = CHR ''L''"
  "lower_char c = CHR ''t'' \<longleftrightarrow> c = CHR ''t'' \<or> c = CHR ''T''"
  "lower_char c = CHR ''o'' \<longleftrightarrow> c = CHR ''o'' \<or> c = CHR ''O''"
  "lower_char c = CHR ''i'' \<longleftrightarrow> c = CHR ''i'' \<or> c = CHR ''I''"
  "lower_char c = CHR ''n'' \<longleftrightarrow> c = CHR ''n'' \<or> c = CHR ''N''"
  "lower_char c = CHR ''m'' \<longleftrightarrow> c = CHR ''m'' \<or> c = CHR ''M''"
  by (rule lower_char_eq_letter; simp)+

lemma same_letter_keyword:
  "same_letter c CHR ''s'' \<longleftrightarrow> c = CHR ''s'' \<or> c = CHR ''S''"
  "same_letter c CHR ''e'' \<longleftrightarrow> c = CHR ''e'' \<or> c = CHR ''E''"
  "same_letter c CHR ''a'' \<longleftrightarrow> c = CHR ''a'' \<or> c = CHR ''A''"
  "same_letter c CHR ''r'' \<longleftrightarrow> c = CHR ''r'' \<or> c = CHR ''R''"
  "same_letter c CHR ''c'' \<longleftrightarrow> c = CHR ''c'' \<or> c = CHR ''C''"
  "same_letter c CHR ''h'' \<longleftrightarrow> c = CHR ''h'' \<or> c = CHR ''H''"
  "same_letter c CHR ''l'' \<longleftrightarrow> c = CHR ''l'' \<or> c = CHR ''L''"
  "same_letter c CHR ''t'' \<longleftrightarrow> c = CHR ''t'' \<or> c = CHR ''T''"
  "same_letter c CHR ''o'' \<longleftrightarrow> c = CHR ''o'' \<or> c = CHR ''O''"
  "same_letter c CHR ''i'' \<longleftrightarrow> c = CHR ''i'' \<or> c = CHR ''I''"
  "same_letter c CHR ''n'' \<longleftrightarrow> c = CHR ''n'' \<or> c = CHR ''N''"
  "same_letter c CHR ''m'' \<longleftrightarrow> c = CHR ''m'' \<or> c = CHR ''M''"
  "same_letter c CHR '' '' \<longleftrightarrow> c = CHR '' ''"
  by (auto simp add: same_letter_def upper_case_letters_def lower_case_letters_def)

lemma lower_char_keyword:
  "k \<in> set ''searchltoni m'' \<Longrightarrow> (lower_char c = k) = same_letter c k"
  by (auto simp add: lower_char_keyword_letters lower_char_eq_space same_letter_keyword)

lemma map_lower_same_letter:
  "set w \<subseteq> set ''searchltoni m'' \<Longrightarrow> map lower_char u = w \<longleftrightarrow> list_all2 same_letter u w"
proof (induction u arbitrary: w)
  case Nil
  show ?case by auto
next
  case (Cons c u)
  show ?case
  proof (cases w)
    case Nil
    then show ?thesis by simp
  next
    case (Cons k ks)
    with Cons.prems have k: "k \<in> set ''searchltoni m''" and ks: "set ks \<subseteq> set ''searchltoni m''"
      by simp_all
    from Cons.IH [OF ks] lower_char_keyword [OF k, of c] show ?thesis
      unfolding Cons by simp
  qed
qed

lemma toLowerCase_includes:
  assumes "set w \<subseteq> set ''searchltoni m''"
  shows "str_includes (toLowerCase t) w = contains_ci t w"
proof -
  have "take (length w) (drop i (map lower_char t)) = w
      \<longleftrightarrow> list_all2 same_letter (take (length w) (drop i t)) w" for i
  proof -
    have "take (length w) (drop i (map lower_char t)) = map lower_char (take (length w) (drop i t))"
      by (simp add: take_map drop_map)
    then show ?thesis
      using map_lower_same_letter [OF assms, of "take (length w) (drop i t)"] by simp
  qed
  then show ?thesis
    by (simp add: str_includes_iff contains_ci_iff toLowerCase_def)
qed

lemma keywords_letters:
  "set ''search'' \<subseteq> set ''searchltoni m''"
  "set ''latest'' \<subseteq> set ''searchltoni m''"
  "set ''location'' \<subseteq> set ''searchltoni m''"
  "set ''near me'' \<subseteq> set ''searchltoni m''"
  by simp_all

lemma chat_options_ci:
  "chat_options t b =
     \<lparr> useSearch = (contains_ci t ''search'' \<or> contains_ci t ''latest''),
       useMaps = (contains_ci t ''location'' \<or> contains_ci t ''near me''),
       o_thinkingBudget = b \<rparr>"
  by (simp add: chat_options_def toLowerCase_includes [OF keywords_letters(1)]
        toLowerCase_includes [OF keywords_letters(2)] toLowerCase_includes [OF keywords_letters(3)]
        toLowerCase_includes [OF keywords_letters(4)])

lemma str_includes_append: "str_includes (p @ m) m"
  unfolding str_includes_iff by (rule exI [of _ "length p"]) simp

lemma error_text_includes: "str_includes (error_text e) (message e)"
  unfolding error_text_def by (rule str_includes_append)

lemma image_caption_includes: "str_includes (image_caption t) t"
  unfolding image_caption_def by (rule str_includes_append)

lemma digit_value: "d < 10 \<Longrightarrow> (of_char (digit d) :: nat) - 48 = d"
  by (simp add: digit_def)

lemma parse_toString: "parse_decimal (toString n) = n"
proof (induction n rule: toString.induct)
  case (1 n)
  show ?case
  proof (cases "n < 10")
    case True
    then show ?thesis
      by (subst toString.simps) (simp add: parse_decimal_def digit_value)
  next
    case False
    with 1 have "parse_decimal (toString (n div 10)) = n div 10" by simp
    with False show ?thesis
      by (subst toString.simps) (simp add: parse_decimal_def digit_value)
  qed
qed

lemma toString_inj: "toString a = toString b \<Longrightarrow> a = b"
  by (metis parse_toString)

section \<open>The runs of handleSend\<close>

lemmas task_defs = Let_def and_then_def discard_def emit_def ret_def await_def
  try_catch_finally_def addMessage_def console_error_def

lemma handleSend_image_ok:
  assumes "\<not> buffer_empty s" "activeMode s = Mode_image" "generateImage w (input s) = Inr r"
  shows "handleSend w s =
    (sync_part w s @ [Upd (SetStatus GENERATING), Call (GenerateImage (input s)),
      Upd (AppendMessage (image_message w s r)), Upd (SetStatus IDLE)], Inr ())"
  using assms guard_iff [of s] by (simp add: handleSend_def task_defs)

lemma handleSend_image_err:
  assumes "\<not> buffer_empty s" "activeMode s = Mode_image" "generateImage w (input s) = Inl e"
  shows "handleSend w s =
    (sync_part w s @ [Upd (SetStatus GENERATING), Call (GenerateImage (input s))]
       @ caught w e, Inr ())"
  using assms guard_iff [of s] by (simp add: handleSend_def task_defs)

lemma handleSend_video_ok:
  assumes "\<not> buffer_empty s" "activeMode s = Mode_video" "generateVideo w (input s) = Inr r"
  shows "handleSend w s =
    (sync_part w s @ [Upd (SetStatus GENERATING), Call (GenerateVideo (input s)),
      Upd (AppendMessage (video_message w r)), Upd (SetStatus IDLE)], Inr ())"
  using assms guard_iff [of s] by (simp add: handleSend_def task_defs)

lemma handleSend_video_err:
  assumes "\<not> buffer_empty s" "activeMode s = Mode_video" "generateVideo w (input s) = Inl e"
  shows "handleSend w s =
    (sync_part w s @ [Upd (SetStatus GENERATING), Call (GenerateVideo (input s))]
       @ caught w e, Inr ())"
  using assms guard_iff [of s] by (simp add: handleSend_def task_defs)

lemma handleSend_chat_ok:
  assumes "\<not> buffer_empty s" "activeMode s \<noteq> Mode_image" "activeMode s \<noteq> Mode_video"
    "chat w (input s) (attachments s) (chat_options (input s) (thinkingBudget s)) = Inr r"
  shows "handleSend w s =
    (sync_part w s @
      [Call (Chat (input s) (attachments s) (chat_options (input s) (thinkingBudget s))),
       Upd (AppendMessage (chat_message w r)), Upd (SetStatus IDLE)], Inr ())"
  using assms guard_iff [of s] by (simp add: handleSend_def task_defs)

lemma handleSend_chat_err:
  assumes "\<not> buffer_empty s" "activeMode s \<noteq> Mode_image" "activeMode s \<noteq> Mode_video"
    "chat w (input s) (attachments s) (chat_options (input s) (thinkingBudget s)) = Inl e"
  shows "handleSend w s =
    (sync_part w s @
      [Call (Chat (input s) (attachments s) (chat_options (input s) (thinkingBudget s)))]
      @ caught w e, Inr ())"
  using assms guard_iff [of s] by (simp add: handleSend_def task_defs)


lemma handleSend_cases [consumes 1, case_names image_ok image_err video_ok video_err chat_ok chat_err]:
  assumes "\<not> buffer_empty s"
  obtains
    r where "activeMode s = Mode_image" "generateImage w (input s) = Inr r"
      "handleSend w s =
        (sync_part w s @ [Upd (SetStatus GENERATING), Call (GenerateImage (input s)),
          Upd (AppendMessage (image_message w s r)), Upd (SetStatus IDLE)], Inr ())"
  | e where "activeMode s = Mode_image" "generateImage w (input s) = Inl e"
      "handleSend w s =
        (sync_part w s @ [Upd (SetStatus GENERATING), Call (GenerateImage (input s))]
           @ caught w e, Inr ())"
  | r where "activeMode s = Mode_video" "generateVideo w (input s) = Inr r"
      "handleSend w s =
        (sync_part w s @ [Upd (SetStatus GENERATING), Call (GenerateVideo (input s)),
          Upd (AppendMessage (video_message w r)), Upd (SetStatus IDLE)], Inr ())"
  | e where "activeMode s = Mode_video" "generateVideo w (input s) = Inl e"
      "handleSend w s =
        (sync_part w s @ [Upd (SetStatus GENERATING), Call (GenerateVideo (input s))]
           @ caught w e, Inr ())"
  | r where "activeMode s \<noteq> Mode_image" "activeMode s \<noteq> Mode_video"
      "chat w (input s) (attachments s) (chat_options (input s) (thinkingBudget s)) = Inr r"
      "handleSend w s =
        (sync_part w s @
          [Call (Chat (input s) (attachments s) (chat_options (input s) (thinkingBudget s))),
           Upd (AppendMessage (chat_message w r)), Upd (SetStatus IDLE)], Inr ())"
  | e where "activeMode s \<noteq> Mode_image" "activeMode s \<noteq> Mode_video"
      "chat w (input s) (attachments s) (chat_options (input s) (thinkingBudget s)) = Inl e"
      "handleSend w s =
        (sync_part w s @
          [Call (Chat (input s) (attachments s) (chat_options (input s) (thinkingBudget s)))]
          @ caught w e, Inr ())"
proof (cases "activeMode s = Mode_image")
  case True
  show thesis
  proof (cases "generateImage w (input s)")
    case (Inl e)
    from handleSend_image_err [OF assms True Inl] True Inl show thesis by (rule that(2) [rotated 2])
  next
    case (Inr r)
    from handleSend_image_ok [OF assms True Inr] True Inr show thesis by (rule that(1) [rotated 2])
  qed
next
  case notimg: False
  show thesis
  proof (cases "activeMode s = Mode_video")
    case True
    show thesis
    proof (cases "generateVideo w (input s)")
      case (Inl e)
      from handleSend_video_err [OF assms True Inl] True Inl show thesis by (rule that(4) [rotated 2])
    next
      case (Inr r)
      from handleSend_video_ok [OF assms True Inr] True Inr show thesis by (rule that(3) [rotated 2])
    qed
  next
    case False
    show thesis
    proof (cases "chat w (input s) (attachments s) (chat_options (input s) (thinkingBudget s))")
      case (Inl e)
      from handleSend_chat_err [OF assms notimg False Inl] notimg False Inl show thesis
        by (rule that(6) [rotated 3])
    next
      case (Inr r)
      from handleSend_chat_ok [OF assms notimg False Inr] notimg False Inr show thesis
        by (rule that(5) [rotated 3])
    qed
  qed
qed

lemma new_message_fields [simp]:
  "m_role (new_message w k role content no_extra) = role"
  "m_content (new_message w k role content no_extra) = content"
  "m_attachments (new_message w k role content no_extra) = None"
  "m_id (new_message w k role content no_extra) = toString (Date_now w k)"
  "m_role (new_message w k role content (no_extra\<lparr>p_attachments := Some as\<rparr>)) = role"
  "m_content (new_message w k role content (no_extra\<lparr>p_attachments := Some as\<rparr>)) = content"
  "m_attachments (new_message w k role content (no_extra\<lparr>p_attachments := Some as\<rparr>)) = Some as"
  "m_id (new_message w k role content (no_extra\<lparr>p_attachments := Some as\<rparr>)) = toString (Date_now w k)"
  "m_role (new_message w k role content (no_extra\<lparr>p_groundingSources := Some gs\<rparr>)) = role"
  "m_content (new_message w k role content (no_extra\<lparr>p_groundingSources := Some gs\<rparr>)) = content"
  "m_attachments (new_message w k role content (no_extra\<lparr>p_groundingSources := Some gs\<rparr>)) = None"
  "m_groundingSources (new_message w k role content (no_extra\<lparr>p_groundingSources := Some gs\<rparr>)) = Some gs"
  "m_id (new_message w k role content (no_extra\<lparr>p_groundingSources := Some gs\<rparr>)) = toString (Date_now w k)"
  by (simp_all add: new_message_def spread_def no_extra_def)

lemma example_states_nonempty:
  "\<not> buffer_empty news_state" "\<not> buffer_empty (sunset_state mode)" "\<not> buffer_empty busy_state"
  "\<not> buffer_empty capitals_state"
  by (simp_all add: buffer_empty_def whitespace_only_def is_white_space_def news_state_def
        sunset_state_def busy_state_def capitals_state_def initial_App_def)

section \<open>The status register after a submission\<close>

text \<open>
  Claim C2. Whenever \<open>handleSend\<close> passes its guard (the buffer holds text that is not
  white space only, or an attachment), then whatever the gateway answers, the status is
  \<open>IDLE\<close> once the run is over: the last status written is \<open>IDLE\<close>, and every write of
  \<open>ERROR\<close> is directly followed by a write of \<open>IDLE\<close> in the same run. The status at
  the start is arbitrary, so this holds in particular for a submission from \<open>IDLE\<close>.
\<close>

theorem submit_ends_idle:
  assumes "\<not> buffer_empty s"
  shows "status (run (fst (handleSend w s)) s) = IDLE
    \<and> last (status_writes (fst (handleSend w s))) = IDLE
    \<and> error_then_idle (status_writes (fst (handleSend w s)))"
  using assms by (cases rule: handleSend_cases [where w = w]) (simp_all add: run_def)

theorem submit_ends_idle_witness:
  "\<not> buffer_empty news_state
   \<and> status (run (fst (handleSend offline_world news_state)) news_state) = IDLE
   \<and> last (status_writes (fst (handleSend offline_world news_state))) = IDLE
   \<and> error_then_idle (status_writes (fst (handleSend offline_world news_state)))
   \<and> status_writes (fst (handleSend offline_world news_state)) = [THINKING, ERROR, IDLE]"
proof -
  have h: "\<not> buffer_empty news_state" by (rule example_states_nonempty)
  have w: "status_writes (fst (handleSend offline_world news_state)) = [THINKING, ERROR, IDLE]"
    by code_simp
  from submit_ends_idle [OF h, of offline_world] h w show ?thesis by simp
qed

section \<open>What a submission appends to the transcript\<close>

text \<open>
  Claim C3. Whenever \<open>handleSend\<close> passes its guard, then whatever the gateway answers,
  the transcript after the run is the transcript before it followed by exactly two
  messages: first a user message whose content and attachments are the text and the
  attachments the buffer held when the handler started, then an assistant message. The
  gateway's answer is arbitrary here, so the user message is there when the call fails too.
\<close>

theorem submit_appends_two:
  assumes "\<not> buffer_empty s"
  shows "\<exists>u a. messages (run (fst (handleSend w s)) s) = messages s @ [u, a]
    \<and> m_role u = Role_user \<and> m_content u = input s \<and> m_attachments u = Some (attachments s)
    \<and> m_role a = Role_assistant"
  using assms by (cases rule: handleSend_cases [where w = w]) (simp_all add: run_def)

theorem submit_appends_two_witness:
  "\<not> buffer_empty news_state
   \<and> (\<exists>u a. messages (run (fst (handleSend offline_world news_state)) news_state)
                = messages news_state @ [u, a]
         \<and> m_role u = Role_user \<and> m_content u = input news_state
         \<and> m_attachments u = Some (attachments news_state)
         \<and> m_role a = Role_assistant)
   \<and> length (messages (run (fst (handleSend offline_world news_state)) news_state)) = 2"
proof -
  have h: "\<not> buffer_empty news_state" by (rule example_states_nonempty)
  have l: "length (messages (run (fst (handleSend offline_world news_state)) news_state)) = 2"
    by code_simp
  from submit_appends_two [OF h, of offline_world] h l show ?thesis by simp
qed

section \<open>A failing gateway call\<close>

text \<open>
  Claim C4. When \<open>handleSend\<close> passes its guard and the gateway operation selected by
  the active mode fails with the error \<open>e\<close>, the handler completes normally (the error
  does not leave \<open>handleSend\<close>), and the last message of the transcript is an assistant
  message whose content is \<open>Encountered an error: \<close> followed by the message text of
  \<open>e\<close>, so it contains that text.
\<close>

theorem gateway_failure_reported:
  assumes "\<not> buffer_empty s" "gateway_failure w s = Some e"
  shows "snd (handleSend w s) = Inr ()
    \<and> (\<exists>ms a. messages (run (fst (handleSend w s)) s) = ms @ [a]
          \<and> m_role a = Role_assistant
          \<and> m_content a = ''Encountered an error: '' @ message e
          \<and> str_includes (m_content a) (message e))"
proof -
  have "snd (handleSend w s) = Inr ()
    \<and> messages (run (fst (handleSend w s)) s)
        = (messages s @ [user_message w s]) @ [error_message w e]"
    using assms(1) assms(2)
    by (cases rule: handleSend_cases [where w = w])
      (auto simp add: gateway_failure_def run_def split: Mode.splits)
  moreover have "m_role (error_message w e) = Role_assistant" by simp
  moreover have "m_content (error_message w e) = ''Encountered an error: '' @ message e"
    by (simp add: error_text_def)
  moreover have "str_includes (m_content (error_message w e)) (message e)"
    by (simp add: error_text_includes)
  ultimately show ?thesis by blast
qed

theorem gateway_failure_reported_witness:
  "\<not> buffer_empty news_state
   \<and> gateway_failure offline_world news_state = Some (Error ''network timeout'')
   \<and> snd (handleSend offline_world news_state) = Inr ()
   \<and> (\<exists>ms a. messages (run (fst (handleSend offline_world news_state)) news_state) = ms @ [a]
          \<and> m_role a = Role_assistant
          \<and> m_content a = ''Encountered an error: '' @ message (Error ''network timeout'')
          \<and> str_includes (m_content a) (message (Error ''network timeout'')))"
proof -
  have h: "\<not> buffer_empty news_state" by (rule example_states_nonempty)
  have f: "gateway_failure offline_world news_state = Some (Error ''network timeout'')"
    by (simp add: gateway_failure_def offline_world_def news_state_def initial_App_def)
  from gateway_failure_reported [OF h f] h f show ?thesis by blast
qed

section \<open>The options of a chat call\<close>

text \<open>
  Claim C8. When \<open>handleSend\<close> passes its guard in a mode other than image and video
  (the chat mode, and the live mode, which takes the same branch), the gateway is called
  exactly once, with the chat operation, the buffer's text and attachments, and options
  in which \<open>useSearch\<close> holds iff the text contains "search" or "latest" case-insensitively,
  \<open>useMaps\<close> holds iff it contains "location" or "near me" case-insensitively, and
  \<open>thinkingBudget\<close> is the configured budget. Case-insensitive containment is
  \<open>contains_ci\<close>, which compares letters through the table of capital and small letters
  and not through \<open>toLowerCase\<close>; the examples are a text in mixed case and the text
  "latest news on AI".
\<close>

theorem chat_options_dispatched:
  assumes "\<not> buffer_empty s" "activeMode s \<noteq> Mode_image" "activeMode s \<noteq> Mode_video"
  shows "\<exists>opts. calls (fst (handleSend w s)) = [Chat (input s) (attachments s) opts]
    \<and> useSearch opts = (contains_ci (input s) ''search'' \<or> contains_ci (input s) ''latest'')
    \<and> useMaps opts = (contains_ci (input s) ''location'' \<or> contains_ci (input s) ''near me'')
    \<and> o_thinkingBudget opts = thinkingBudget s"
  using assms(1)
  by (cases rule: handleSend_cases [where w = w]) (simp_all add: assms chat_options_ci)

theorem chat_options_dispatched_witness:
  "\<not> buffer_empty capitals_state
   \<and> activeMode capitals_state \<noteq> Mode_image \<and> activeMode capitals_state \<noteq> Mode_video
   \<and> (\<exists>opts. calls (fst (handleSend online_world capitals_state))
                 = [Chat ''LATEST News Near Me'' [] opts]
         \<and> useSearch opts = True \<and> useMaps opts = True \<and> o_thinkingBudget opts = 500)
   \<and> \<not> buffer_empty news_state
   \<and> activeMode news_state \<noteq> Mode_image \<and> activeMode news_state \<noteq> Mode_video
   \<and> (\<exists>opts. calls (fst (handleSend online_world news_state))
                 = [Chat ''latest news on AI'' [] opts]
         \<and> useSearch opts = True \<and> useMaps opts = False \<and> o_thinkingBudget opts = 500)"
proof -
  have hc: "\<not> buffer_empty capitals_state" and hn: "\<not> buffer_empty news_state"
    by (rule example_states_nonempty)+
  have mc: "activeMode capitals_state \<noteq> Mode_image" "activeMode capitals_state \<noteq> Mode_video"
    and mn: "activeMode news_state \<noteq> Mode_image" "activeMode news_state \<noteq> Mode_video"
    by (simp_all add: capitals_state_def news_state_def initial_App_def)
  have ic: "input capitals_state = ''LATEST News Near Me''" "attachments capitals_state = []"
    "thinkingBudget capitals_state = 500"
    and i_n: "input news_state = ''latest news on AI''" "attachments news_state = []"
    "thinkingBudget news_state = 500"
    by (simp_all add: capitals_state_def news_state_def initial_App_def)
  have cc: "contains_ci ''LATEST News Near Me'' ''search'' = False"
    "contains_ci ''LATEST News Near Me'' ''latest'' = True"
    "contains_ci ''LATEST News Near Me'' ''location'' = False"
    "contains_ci ''LATEST News Near Me'' ''near me'' = True"
    by code_simp+
  have cn: "contains_ci ''latest news on AI'' ''search'' = False"
    "contains_ci ''latest news on AI'' ''latest'' = True"
    "contains_ci ''latest news on AI'' ''location'' = False"
    "contains_ci ''latest news on AI'' ''near me'' = False"
    by code_simp+
  from chat_options_dispatched [OF hc mc, of online_world]
  have c: "\<exists>opts. calls (fst (handleSend online_world capitals_state))
                 = [Chat ''LATEST News Near Me'' [] opts]
         \<and> useSearch opts = True \<and> useMaps opts = True \<and> o_thinkingBudget opts = 500"
    unfolding ic cc by simp
  from chat_options_dispatched [OF hn mn, of online_world]
  have n: "\<exists>opts. calls (fst (handleSend online_world news_state))
                 = [Chat ''latest news on AI'' [] opts]
         \<and> useSearch opts = True \<and> useMaps opts = False \<and> o_thinkingBudget opts = 500"
    unfolding i_n cn by simp
  from hc mc c hn mn n show ?thesis by blast
qed

section \<open>Snapshot and clearing of the composition buffer\<close>

text \<open>
  Claim C9. Whenever \<open>handleSend\<close> passes its guard, its trace starts by clearing the
  input text and the pending attachments, and only then appends the user message and,
  later, calls the gateway: no gateway call precedes the clearing, at the moment of the
  call the buffer is empty, and the user message nevertheless carries the text and the
  attachments that the buffer held when the handler started (the snapshot).
\<close>

theorem buffer_cleared_before_call:
  assumes "\<not> buffer_empty s"
  shows "\<exists>u mid rq post.
      fst (handleSend w s) =
        [Upd (SetInput []), Upd (SetAttachments []), Upd (SetStatus THINKING),
         Upd (AppendMessage u)] @ mid @ Call rq # post
    \<and> calls mid = []
    \<and> m_role u = Role_user \<and> m_content u = input s \<and> m_attachments u = Some (attachments s)
    \<and> input (run [Upd (SetInput []), Upd (SetAttachments [])] s) = []
    \<and> attachments (run [Upd (SetInput []), Upd (SetAttachments [])] s) = []
    \<and> input (run ([Upd (SetInput []), Upd (SetAttachments []), Upd (SetStatus THINKING),
         Upd (AppendMessage u)] @ mid) s) = []
    \<and> attachments (run ([Upd (SetInput []), Upd (SetAttachments []), Upd (SetStatus THINKING),
         Upd (AppendMessage u)] @ mid) s) = []"
proof -
  have gen: "calls [Upd (SetStatus GENERATING)] = []
      \<and> input (run (sync_part w s @ [Upd (SetStatus GENERATING)]) s) = []
      \<and> attachments (run (sync_part w s @ [Upd (SetStatus GENERATING)]) s) = []"
    by (simp add: run_def)
  have nil: "calls [] = []
      \<and> input (run (sync_part w s @ []) s) = []
      \<and> attachments (run (sync_part w s @ []) s) = []"
    by (simp add: run_def)
  have "\<exists>mid rq post. fst (handleSend w s) = sync_part w s @ mid @ Call rq # post
      \<and> calls mid = []
      \<and> input (run (sync_part w s @ mid) s) = []
      \<and> attachments (run (sync_part w s @ mid) s) = []"
    using assms
  proof (cases rule: handleSend_cases [where w = w])
    case (image_ok r)
    then have "fst (handleSend w s) = sync_part w s @ [Upd (SetStatus GENERATING)]
        @ Call (GenerateImage (input s))
          # [Upd (AppendMessage (image_message w s r)), Upd (SetStatus IDLE)]"
      by simp
    with gen show ?thesis by blast
  next
    case (image_err e)
    then have "fst (handleSend w s) = sync_part w s @ [Upd (SetStatus GENERATING)]
        @ Call (GenerateImage (input s)) # caught w e"
      by simp
    with gen show ?thesis by blast
  next
    case (video_ok r)
    then have "fst (handleSend w s) = sync_part w s @ [Upd (SetStatus GENERATING)]
        @ Call (GenerateVideo (input s))
          # [Upd (AppendMessage (video_message w r)), Upd (SetStatus IDLE)]"
      by simp
    with gen show ?thesis by blast
  next
    case (video_err e)
    then have "fst (handleSend w s) = sync_part w s @ [Upd (SetStatus GENERATING)]
        @ Call (GenerateVideo (input s)) # caught w e"
      by simp
    with gen show ?thesis by blast
  next
    case (chat_ok r)
    then have "fst (handleSend w s) = sync_part w s @ []
        @ Call (Chat (input s) (attachments s) (chat_options (input s) (thinkingBudget s)))
          # [Upd (AppendMessage (chat_message w r)), Upd (SetStatus IDLE)]"
      by simp
    with nil show ?thesis by blast
  next
    case (chat_err e)
    then have "fst (handleSend w s) = sync_part w s @ []
        @ Call (Chat (input s) (attachments s) (chat_options (input s) (thinkingBudget s)))
          # caught w e"
      by simp
    with nil show ?thesis by blast
  qed
  moreover have "m_role (user_message w s) = Role_user" "m_content (user_message w s) = input s"
    "m_attachments (user_message w s) = Some (attachments s)"
    by simp_all
  moreover have "input (run [Upd (SetInput []), Upd (SetAttachments [])] s) = []"
    "attachments (run [Upd (SetInput []), Upd (SetAttachments [])] s) = []"
    by (simp_all add: run_def)
  ultimately show ?thesis by blast
qed

theorem buffer_cleared_before_call_witness:
  "\<not> buffer_empty news_state
   \<and> (\<exists>u mid rq post.
        fst (handleSend online_world news_state) =
          [Upd (SetInput []), Upd (SetAttachments []), Upd (SetStatus THINKING),
           Upd (AppendMessage u)] @ mid @ Call rq # post
      \<and> calls mid = []
      \<and> m_role u = Role_user \<and> m_content u = input news_state
      \<and> m_attachments u = Some (attachments news_state)
      \<and> input (run [Upd (SetInput []), Upd (SetAttachments [])] news_state) = []
      \<and> attachments (run [Upd (SetInput []), Upd (SetAttachments [])] news_state) = []
      \<and> input (run ([Upd (SetInput []), Upd (SetAttachments []), Upd (SetStatus THINKING),
           Upd (AppendMessage u)] @ mid) news_state) = []
      \<and> attachments (run ([Upd (SetInput []), Upd (SetAttachments []), Upd (SetStatus THINKING),
           Upd (AppendMessage u)] @ mid) news_state) = [])
   \<and> input news_state = ''latest news on AI''"
proof -
  have h: "\<not> buffer_empty news_state" by (rule example_states_nonempty)
  have i: "input news_state = ''latest news on AI''"
    by (simp add: news_state_def initial_App_def)
  from buffer_cleared_before_call [OF h, of online_world] h i show ?thesis by blast
qed

section \<open>The reply of the image and video modes\<close>

text \<open>
  Claim C7, as stated, with "referencing the original prompt text" read as: the content
  contains the text that was submitted. In video mode the caption is the constant
  \<open>I've generated this video for you.\<close>: for the text "generate a sunset" it contains
  neither the text nor the word "sunset".
\<close>

theorem video_caption_counterexample:
  "activeMode (sunset_state Mode_video) = Mode_video
   \<and> generateVideo online_world (input (sunset_state Mode_video)) = Inr \<lparr> r_url = ''blob:video'' \<rparr>
   \<and> m_content (last (messages (run (fst (handleSend online_world (sunset_state Mode_video)))
        (sunset_state Mode_video)))) = ''I've generated this video for you.''
   \<and> \<not> str_includes (m_content (last (messages
        (run (fst (handleSend online_world (sunset_state Mode_video)))
          (sunset_state Mode_video))))) (input (sunset_state Mode_video))
   \<and> \<not> str_includes (m_content (last (messages
        (run (fst (handleSend online_world (sunset_state Mode_video)))
          (sunset_state Mode_video))))) ''sunset''"
  by code_simp

text \<open>
  Claim C7, amended. When \<open>handleSend\<close> passes its guard and the gateway call succeeds
  with the result \<open>r\<close>, the last message of the transcript is an assistant message with
  exactly one attachment, without payload, whose url is the url of \<open>r\<close>. In image mode
  its content is \<open>Here's the image you requested based on: \<close> followed by the submitted
  text (so it contains that text), and the attachment has type image and MIME type
  \<open>image/png\<close>. In video mode its content is the constant
  \<open>I've generated this video for you.\<close>, and the attachment has type video and MIME type
  \<open>video/mp4\<close>.
\<close>

theorem media_reply:
  assumes "\<not> buffer_empty s"
  shows "(activeMode s = Mode_image \<and> generateImage w (input s) = Inr r \<longrightarrow>
      (\<exists>ms a. messages (run (fst (handleSend w s)) s) = ms @ [a]
         \<and> m_role a = Role_assistant
         \<and> m_content a = ''Here's the image you requested based on: '' @ input s
         \<and> str_includes (m_content a) (input s)
         \<and> m_attachments a = Some [\<lparr> a_type = T_image, a_url = r_url r, a_data = None,
                                      a_mimeType = ''image/png'' \<rparr>]))
    \<and> (activeMode s = Mode_video \<and> generateVideo w (input s) = Inr r \<longrightarrow>
      (\<exists>ms a. messages (run (fst (handleSend w s)) s) = ms @ [a]
         \<and> m_role a = Role_assistant
         \<and> m_content a = ''I've generated this video for you.''
         \<and> m_attachments a = Some [\<lparr> a_type = T_video, a_url = r_url r, a_data = None,
                                      a_mimeType = ''video/mp4'' \<rparr>]))"
proof (intro conjI impI)
  assume a: "activeMode s = Mode_image \<and> generateImage w (input s) = Inr r"
  then have "messages (run (fst (handleSend w s)) s)
      = (messages s @ [user_message w s]) @ [image_message w s r]"
    using handleSend_image_ok [OF assms, of w r] by (simp add: run_def)
  moreover have "m_role (image_message w s r) = Role_assistant" by simp
  moreover have "m_content (image_message w s r)
      = ''Here's the image you requested based on: '' @ input s"
    by (simp add: image_caption_def)
  moreover have "str_includes (m_content (image_message w s r)) (input s)"
    by (simp add: image_caption_includes)
  moreover have "m_attachments (image_message w s r)
      = Some [\<lparr> a_type = T_image, a_url = r_url r, a_data = None, a_mimeType = ''image/png'' \<rparr>]"
    by simp
  ultimately show "\<exists>ms a. messages (run (fst (handleSend w s)) s) = ms @ [a]
         \<and> m_role a = Role_assistant
         \<and> m_content a = ''Here's the image you requested based on: '' @ input s
         \<and> str_includes (m_content a) (input s)
         \<and> m_attachments a = Some [\<lparr> a_type = T_image, a_url = r_url r, a_data = None,
                                      a_mimeType = ''image/png'' \<rparr>]"
    by blast
next
  assume a: "activeMode s = Mode_video \<and> generateVideo w (input s) = Inr r"
  then have "messages (run (fst (handleSend w s)) s)
      = (messages s @ [user_message w s]) @ [video_message w r]"
    using handleSend_video_ok [OF assms, of w r] by (simp add: run_def)
  moreover have "m_role (video_message w r) = Role_assistant" by simp
  moreover have "m_content (video_message w r) = ''I've generated this video for you.''"
    by simp
  moreover have "m_attachments (video_message w r)
      = Some [\<lparr> a_type = T_video, a_url = r_url r, a_data = None, a_mimeType = ''video/mp4'' \<rparr>]"
    by simp
  ultimately show "\<exists>ms a. messages (run (fst (handleSend w s)) s) = ms @ [a]
         \<and> m_role a = Role_assistant
         \<and> m_content a = ''I've generated this video for you.''
         \<and> m_attachments a = Some [\<lparr> a_type = T_video, a_url = r_url r, a_data = None,
                                      a_mimeType = ''video/mp4'' \<rparr>]"
    by blast
qed

theorem media_reply_witness:
  "\<not> buffer_empty (sunset_state Mode_image)
   \<and> activeMode (sunset_state Mode_image) = Mode_image
   \<and> generateImage online_world (input (sunset_state Mode_image)) = Inr \<lparr> r_url = ''blob:image'' \<rparr>
   \<and> (\<exists>ms a. messages (run (fst (handleSend online_world (sunset_state Mode_image)))
                  (sunset_state Mode_image)) = ms @ [a]
         \<and> m_role a = Role_assistant
         \<and> m_content a = ''Here's the image you requested based on: ''
                           @ input (sunset_state Mode_image)
         \<and> str_includes (m_content a) (input (sunset_state Mode_image))
         \<and> m_attachments a = Some [\<lparr> a_type = T_image,
              a_url = r_url \<lparr> r_url = ''blob:image'' \<rparr>, a_data = None,
              a_mimeType = ''image/png'' \<rparr>])
   \<and> \<not> buffer_empty (sunset_state Mode_video)
   \<and> activeMode (sunset_state Mode_video) = Mode_video
   \<and> generateVideo online_world (input (sunset_state Mode_video)) = Inr \<lparr> r_url = ''blob:video'' \<rparr>
   \<and> (\<exists>ms a. messages (run (fst (handleSend online_world (sunset_state Mode_video)))
                  (sunset_state Mode_video)) = ms @ [a]
         \<and> m_role a = Role_assistant
         \<and> m_content a = ''I've generated this video for you.''
         \<and> m_attachments a = Some [\<lparr> a_type = T_video,
              a_url = r_url \<lparr> r_url = ''blob:video'' \<rparr>, a_data = None,
              a_mimeType = ''video/mp4'' \<rparr>])"
proof -
  have hi: "\<not> buffer_empty (sunset_state Mode_image)"
    and hv: "\<not> buffer_empty (sunset_state Mode_video)"
    by (rule example_states_nonempty)+
  have mi: "activeMode (sunset_state Mode_image) = Mode_image"
    and mv: "activeMode (sunset_state Mode_video) = Mode_video"
    by (simp_all add: sunset_state_def)
  have gi: "generateImage online_world (input (sunset_state Mode_image))
      = Inr \<lparr> r_url = ''blob:image'' \<rparr>"
    and gv: "generateVideo online_world (input (sunset_state Mode_video))
      = Inr \<lparr> r_url = ''blob:video'' \<rparr>"
    by (simp_all add: online_world_def)
  from media_reply [OF hi, of online_world "\<lparr> r_url = ''blob:image'' \<rparr>"]
    media_reply [OF hv, of online_world "\<lparr> r_url = ''blob:video'' \<rparr>"]
    hi hv mi mv gi gv
  show ?thesis by blast
qed

section \<open>Attachment classification\<close>

lemma attachment_type_by_prefix: "attachment_type m = classify_by_prefix m"
  by (simp add: attachment_type_def classify_by_prefix_def ordered_rules_def contains_any_def)

lemma unparseable_header_default:
  "match_colon_semicolon header = None \<or> match_colon_semicolon header = Some []
     \<Longrightarrow> header_mimeType header = ''image/png''"
  by (auto simp add: header_mimeType_def)

lemma image_png_is_image: "attachment_type ''image/png'' = T_image"
  by code_simp

text \<open>
  Claim C5, as stated, with \<open>video/*\<close>, \<open>audio/*\<close> and \<open>image/*\<close> read as the MIME
  types of those three families (\<open>classify_claimed\<close>). The code tests the bare prefixes,
  so a MIME type whose top-level type merely begins with one of the three words is
  classified by the code as that family and by the claimed rules as a document.
\<close>

theorem classify_claimed_counterexample:
  "attachment_type ''videox/mp4'' = T_video \<and> classify_claimed ''videox/mp4'' = T_document
   \<and> attachment_type ''audiox/mp3'' = T_audio \<and> classify_claimed ''audiox/mp3'' = T_document
   \<and> attachment_type ''imagex/png'' = T_image \<and> classify_claimed ''imagex/png'' = T_document
   \<and> a_mimeType (onload_attachment ''data:videox/mp4;base64,AAAA'' ''blob:1'') = ''videox/mp4''
   \<and> a_type (onload_attachment ''data:videox/mp4;base64,AAAA'' ''blob:1'') = T_video"
  by code_simp

text \<open>
  Claim C5, amended. The type of an ingested attachment is a function of its MIME type
  alone, given by these rules, the first that applies winning: beginning with "video",
  video; beginning with "audio", audio; equal to \<open>application/pdf\<close>, pdf; containing
  "text", "json", "javascript" or "typescript", code; containing "spreadsheet", "excel"
  or "csv", spreadsheet; containing "presentation" or "powerpoint", presentation;
  not beginning with "image", document; otherwise image. A header in which the pattern
  \<open>:(.*?);\<close> finds no match, or an empty one, gives the MIME type \<open>image/png\<close> and the
  type image.
\<close>

theorem attachment_type_rules:
  "a_type (onload_attachment base64 objectUrl)
     = classify_by_prefix (a_mimeType (onload_attachment base64 objectUrl))
   \<and> (match_colon_semicolon (data_url_header base64) = None
        \<or> match_colon_semicolon (data_url_header base64) = Some []
      \<longrightarrow> a_mimeType (onload_attachment base64 objectUrl) = ''image/png''
          \<and> a_type (onload_attachment base64 objectUrl) = T_image)"
  using unparseable_header_default [of "data_url_header base64"]
  by (auto simp add: onload_attachment_def Let_def attachment_type_by_prefix [symmetric]
        image_png_is_image)

theorem attachment_type_rules_witness:
  "match_colon_semicolon (data_url_header ''garbage'') = None
   \<and> a_mimeType (onload_attachment ''garbage'' ''blob:1'') = ''image/png''
   \<and> a_type (onload_attachment ''garbage'' ''blob:1'') = T_image
   \<and> a_type (onload_attachment ''data:application/vnd.ms-powerpoint;base64,AAAA'' ''blob:2'')
       = classify_by_prefix ''application/vnd.ms-powerpoint''
   \<and> classify_by_prefix ''application/vnd.ms-powerpoint'' = T_presentation"
proof -
  have h: "match_colon_semicolon (data_url_header ''garbage'') = None" by code_simp
  have m: "a_mimeType (onload_attachment ''data:application/vnd.ms-powerpoint;base64,AAAA''
      ''blob:2'') = ''application/vnd.ms-powerpoint''" by code_simp
  have p: "classify_by_prefix ''application/vnd.ms-powerpoint'' = T_presentation" by code_simp
  from attachment_type_rules [of "''garbage''" "''blob:1''"] h
  have g: "a_mimeType (onload_attachment ''garbage'' ''blob:1'') = ''image/png''
      \<and> a_type (onload_attachment ''garbage'' ''blob:1'') = T_image"
    by blast
  from attachment_type_rules [of "''data:application/vnd.ms-powerpoint;base64,AAAA''" "''blob:2''"]
  have "a_type (onload_attachment ''data:application/vnd.ms-powerpoint;base64,AAAA'' ''blob:2'')
      = classify_by_prefix (a_mimeType
          (onload_attachment ''data:application/vnd.ms-powerpoint;base64,AAAA'' ''blob:2''))"
    by blast
  then have "a_type (onload_attachment ''data:application/vnd.ms-powerpoint;base64,AAAA''
      ''blob:2'') = classify_by_prefix ''application/vnd.ms-powerpoint''"
    unfolding m .
  with h g p show ?thesis by blast
qed

section \<open>Submissions that must do nothing\<close>

text \<open>
  Property X1 (the part of claim C1 about the empty buffer). When the input text is empty
  or white space only and no attachment is pending, \<open>handleSend\<close> does nothing: it
  performs no state update and no gateway call, so the transcript, the buffer and the
  status are as before.
\<close>

theorem handleSend_empty:
  assumes "buffer_empty s"
  shows "handleSend w s = ([], Inr ())
    \<and> calls (fst (handleSend w s)) = []
    \<and> run (fst (handleSend w s)) s = s"
  using assms guard_iff [of s] by (simp add: handleSend_def ret_def run_def)

theorem handleSend_empty_witness:
  "buffer_empty (initial_App\<lparr>input := ''  ''\<rparr>)
   \<and> handleSend online_world (initial_App\<lparr>input := ''  ''\<rparr>) = ([], Inr ())
   \<and> calls (fst (handleSend online_world (initial_App\<lparr>input := ''  ''\<rparr>))) = []
   \<and> run (fst (handleSend online_world (initial_App\<lparr>input := ''  ''\<rparr>)))
        (initial_App\<lparr>input := ''  ''\<rparr>) = initial_App\<lparr>input := ''  ''\<rparr>"
proof -
  have h: "buffer_empty (initial_App\<lparr>input := ''  ''\<rparr>)"
    by (simp add: buffer_empty_def whitespace_only_def is_white_space_def initial_App_def)
  from handleSend_empty [OF h, of online_world] h show ?thesis by blast
qed

text \<open>
  Property X2 (the send button). A click on the send button does nothing while the
  status is not \<open>IDLE\<close>, and nothing when the buffer is empty: the button is disabled
  then.
\<close>

theorem button_gated:
  assumes "status s \<noteq> IDLE \<or> buffer_empty s"
  shows "button_onClick w s = ([], Inr ())"
  using assms guard_iff [of s] by (auto simp add: button_onClick_def send_disabled_def ret_def)

theorem button_gated_witness:
  "status busy_state \<noteq> IDLE \<and> button_onClick online_world busy_state = ([], Inr ())"
proof -
  have h: "status busy_state \<noteq> IDLE" by (simp add: busy_state_def initial_App_def)
  then have "status busy_state \<noteq> IDLE \<or> buffer_empty busy_state" by simp
  from button_gated [OF this, of online_world] h show ?thesis by blast
qed

text \<open>
  Claim C1, at the state \<open>busy_state\<close>: the status is \<open>THINKING\<close> (a submission is in
  flight) and the text "hi" has been typed. The send button does nothing there. The Enter
  key in the text area runs \<open>handleSend\<close>, which does not read the status: it calls the
  gateway's chat operation, appends two messages to the transcript and leaves the status
  \<open>IDLE\<close>.
\<close>

theorem enter_key_bypasses_status_gate:
  "status busy_state = THINKING
   \<and> button_onClick online_world busy_state = ([], Inr ())
   \<and> calls (fst (textarea_onKeyDown ''Enter'' False online_world busy_state))
       = [Chat ''hi'' [] \<lparr> useSearch = False, useMaps = False, o_thinkingBudget = 500 \<rparr>]
   \<and> length (messages (run (fst (textarea_onKeyDown ''Enter'' False online_world busy_state))
        busy_state)) = length (messages busy_state) + 2
   \<and> status (run (fst (textarea_onKeyDown ''Enter'' False online_world busy_state))
        busy_state) = IDLE"
  by code_simp

section \<open>The classification of CSV files\<close>

text \<open>
  Claim C6, at the MIME type \<open>text/csv\<close>: the rule for "text" stands before the rule for
  "csv", so the type is code, not spreadsheet; the same for the attachment ingested from
  a data URL with that MIME type.
\<close>

theorem text_csv_classified_code:
  "attachment_type ''text/csv'' = T_code
   \<and> a_mimeType (onload_attachment ''data:text/csv;base64,YSxiCg=='' ''blob:1'') = ''text/csv''
   \<and> a_type (onload_attachment ''data:text/csv;base64,YSxiCg=='' ''blob:1'') = T_code"
  by code_simp

section \<open>Message ids\<close>

text \<open>
  Claim C10, at a run in which the clock does not advance between the two calls of
  \<open>addMessage\<close>: from the fresh component with the text "latest news on AI" typed, with
  a gateway that rejects at once and \<open>Date.now()\<close> returning 1000 throughout, the
  transcript holds two messages with the same id "1000".
\<close>

theorem duplicate_message_ids:
  "map m_id (messages (run (fst (handleSend offline_world news_state)) news_state))
     = [''1000'', ''1000'']
   \<and> \<not> distinct (map m_id
          (messages (run (fst (handleSend offline_world news_state)) news_state)))"
  by code_simp

text \<open>
  Property X3 (when ids stay unique). If the ids of the transcript are distinct, the two
  clock readings that \<open>handleSend\<close> turns into ids differ from each other, and neither
  rendering is an id of the transcript yet, then the ids are distinct after the run as
  well.
\<close>

theorem ids_distinct_when_clock_advances:
  assumes "\<not> buffer_empty s" "distinct (map m_id (messages s))"
    "Date_now w 0 \<noteq> Date_now w 2"
    "toString (Date_now w 0) \<notin> set (map m_id (messages s))"
    "toString (Date_now w 2) \<notin> set (map m_id (messages s))"
  shows "distinct (map m_id (messages (run (fst (handleSend w s)) s)))"
proof -
  from assms(3) have ne: "toString (Date_now w 0) \<noteq> toString (Date_now w 2)"
    using toString_inj by blast
  from assms(1) show ?thesis
    using assms(2,4,5) ne
    by (cases rule: handleSend_cases [where w = w]) (simp_all add: run_def)
qed

theorem ids_distinct_when_clock_advances_witness:
  "\<not> buffer_empty news_state
   \<and> distinct (map m_id (messages news_state))
   \<and> Date_now online_world 0 \<noteq> Date_now online_world 2
   \<and> toString (Date_now online_world 0) \<notin> set (map m_id (messages news_state))
   \<and> toString (Date_now online_world 2) \<notin> set (map m_id (messages news_state))
   \<and> distinct (map m_id (messages (run (fst (handleSend online_world news_state)) news_state)))
   \<and> map m_id (messages (run (fst (handleSend online_world news_state)) news_state))
       = [''1000'', ''1002'']"
proof -
  have h: "\<not> buffer_empty news_state" by (rule example_states_nonempty)
  have m: "messages news_state = []" by (simp add: news_state_def initial_App_def)
  have c: "Date_now online_world 0 \<noteq> Date_now online_world 2"
    by (simp add: online_world_def)
  have d: "distinct (map m_id (messages news_state))"
    and n0: "toString (Date_now online_world 0) \<notin> set (map m_id (messages news_state))"
    and n2: "toString (Date_now online_world 2) \<notin> set (map m_id (messages news_state))"
    by (simp_all add: m)
  have v: "map m_id (messages (run (fst (handleSend online_world news_state)) news_state))
       = [''1000'', ''1002'']"
    by code_simp
  from ids_distinct_when_clock_advances [OF h d c n0 n2] h d c n0 n2 v show ?thesis by blast
qed

end
